theory Spec2Isabelle
  imports Main
begin

section \<open>Values\<close>

text \<open>
  The program handles the values that \<^verbatim>\<open>response.json()\<close> produces: \<^verbatim>\<open>None\<close>, booleans,
  integers, strings, lists and dictionaries with string keys. A dictionary is an association
  list in insertion order, read with \<^const>\<open>map_of\<close>. A string is a list of code points below
  256. Floating-point numbers are not part of the model.
\<close>

datatype pyval =
    PNone
  | PBool bool
  | PInt int
  | PStr string
  | PList "pyval list"
  | PDict "(string \<times> pyval) list"

datatype error =
    KeyError string
  | TypeError
  | AttributeError
  | ValueError string
  | OSError string
  | CsvError string

text \<open>Truth value testing (\<^verbatim>\<open>if x\<close>, \<^verbatim>\<open>not x\<close>, \<^verbatim>\<open>x or y\<close>, \<^verbatim>\<open>x and y\<close>).\<close>

fun truthy :: "pyval \<Rightarrow> bool" where
  "truthy PNone = False"
| "truthy (PBool b) = b"
| "truthy (PInt i) = (i \<noteq> 0)"
| "truthy (PStr s) = (s \<noteq> [])"
| "truthy (PList xs) = (xs \<noteq> [])"
| "truthy (PDict kvs) = (kvs \<noteq> [])"

text \<open>\<^verbatim>\<open>sep.join(xs)\<close> on a list of strings.\<close>

fun str_join :: "string \<Rightarrow> string list \<Rightarrow> string" where
  "str_join sep [] = []"
| "str_join sep [x] = x"
| "str_join sep (x # y # ys) = x @ sep @ str_join sep (y # ys)"

text \<open>\<^verbatim>\<open>str(i)\<close> for an integer: decimal digits, with a minus sign when negative.\<close>

fun nat_digits :: "nat \<Rightarrow> string" where
  "nat_digits n =
     (if n < 10 then [char_of (48 + n)]
      else nat_digits (n div 10) @ [char_of (48 + n mod 10)])"

declare nat_digits.simps [simp del]

definition int_str :: "int \<Rightarrow> string" where
  "int_str i = (if i < 0 then CHR ''-'' # nat_digits (nat (- i)) else nat_digits (nat i))"

text \<open>
  \<^verbatim>\<open>repr(s)\<close> for a string: single quotes, unless the string holds a single quote and no
  double quote; the quote and the backslash are escaped, tab, newline and carriage return
  are written \<^verbatim>\<open>\t\<close>, \<^verbatim>\<open>\n\<close>, \<^verbatim>\<open>\r\<close>, and every other non-printable code point as \<^verbatim>\<open>\xNN\<close>.
\<close>

definition hex_digit :: "nat \<Rightarrow> char" where
  "hex_digit n = (if n < 10 then char_of (48 + n) else char_of (87 + n))"

definition py_printable :: "char \<Rightarrow> bool" where
  "py_printable c =
     (let n = (of_char c :: nat)
      in (32 \<le> n \<and> n \<le> 126) \<or> (161 \<le> n \<and> n \<noteq> 173))"

definition repr_char :: "char \<Rightarrow> char \<Rightarrow> string" where
  "repr_char q c =
     (if c = q \<or> c = CHR 0x5C then [CHR 0x5C, c]
      else if c = CHR 0x09 then [CHR 0x5C, CHR ''t'']
      else if c = CHR 0x0A then [CHR 0x5C, CHR ''n'']
      else if c = CHR 0x0D then [CHR 0x5C, CHR ''r'']
      else if py_printable c then [c]
      else [CHR 0x5C, CHR ''x'', hex_digit (of_char c div 16), hex_digit (of_char c mod 16)])"

definition str_repr :: "string \<Rightarrow> string" where
  "str_repr s =
     (let q = (if CHR 0x27 \<in> set s \<and> CHR 0x22 \<notin> set s then CHR 0x22 else CHR 0x27)
      in q # concat (map (repr_char q) s) @ [q])"

text \<open>\<^verbatim>\<open>repr(v)\<close>, which \<^verbatim>\<open>str\<close> uses for the elements of a list or dictionary.\<close>

primrec py_repr :: "pyval \<Rightarrow> string" where
  "py_repr PNone = ''None''"
| "py_repr (PBool b) = (if b then ''True'' else ''False'')"
| "py_repr (PInt i) = int_str i"
| "py_repr (PStr s) = str_repr s"
| "py_repr (PList xs) = ''['' @ str_join '', '' (map py_repr xs) @ '']''"
| "py_repr (PDict kvs) =
     ''{'' @ str_join '', '' (map (\<lambda>(k, r). str_repr k @ '': '' @ r)
                                  (map (map_prod id py_repr) kvs)) @ ''}''"

text \<open>\<^verbatim>\<open>str(v)\<close>: a string is its own text form, every other value prints as its \<^verbatim>\<open>repr\<close>.\<close>

definition py_str :: "pyval \<Rightarrow> string" where
  "py_str v = (case v of PStr s \<Rightarrow> s | _ \<Rightarrow> py_repr v)"

section \<open>TextCleaner\<close>

text \<open>
  The pattern \<^verbatim>\<open>\s\(IM-\d+\)\<close>. On code points below 256, \<^verbatim>\<open>\s\<close> matches 9 to 13, 28 to 32,
  133 and 160, and \<^verbatim>\<open>\d\<close> matches the ten ASCII digits.
\<close>

definition is_space :: "char \<Rightarrow> bool" where
  "is_space c =
     (let n = (of_char c :: nat)
      in (9 \<le> n \<and> n \<le> 13) \<or> (28 \<le> n \<and> n \<le> 32) \<or> n = 133 \<or> n = 160)"

definition is_digit :: "char \<Rightarrow> bool" where
  "is_digit c = (let n = (of_char c :: nat) in 48 \<le> n \<and> n \<le> 57)"

text \<open>
  \<^verbatim>\<open>re.match(pattern, s)\<close>: the rest of \<open>s\<close> after a match at its start. The digits are
  taken greedily; a shorter run cannot be followed by the closing parenthesis, so there is
  nothing to backtrack to.
\<close>

fun match_pattern :: "string \<Rightarrow> string option" where
  "match_pattern (w # p # i # m # h # rest) =
     (if is_space w \<and> p = CHR ''('' \<and> i = CHR ''I'' \<and> m = CHR ''M'' \<and> h = CHR ''-''
         \<and> takeWhile is_digit rest \<noteq> []
      then (case dropWhile is_digit rest of
              c # rest' \<Rightarrow> if c = CHR '')'' then Some rest' else None
            | [] \<Rightarrow> None)
      else None)"
| "match_pattern _ = None"

lemma match_pattern_shorter:
  "match_pattern s = Some r \<Longrightarrow> length r < length s"
proof (induction s rule: match_pattern.induct)
  case (1 w p i m h rest)
  from 1 obtain c where d: "dropWhile is_digit rest = c # r"
    by (auto split: if_splits list.splits)
  have "length (dropWhile is_digit rest) \<le> length rest"
    by (rule length_dropWhile_le)
  with d show ?case by simp
qed simp_all

text \<open>
  \<^verbatim>\<open>re.sub(pattern, '', s)\<close>: scan from the left; where the pattern matches, drop the match
  and go on behind it, otherwise keep the character and go on at the next one.
\<close>

function re_sub :: "string \<Rightarrow> string" where
  "re_sub [] = []"
| "re_sub (c # cs) =
     (case match_pattern (c # cs) of
        Some rest \<Rightarrow> re_sub rest
      | None \<Rightarrow> c # re_sub cs)"
  by pat_completeness auto
termination
  by (relation "measure length") (auto dest: match_pattern_shorter)

definition clean_field :: "pyval \<Rightarrow> string" where
  "clean_field field =
     (if \<not> truthy field then ''''
      else (case field of
              PList xs \<Rightarrow> str_join '','' (map (\<lambda>x. re_sub (py_str x)) xs)
            | _ \<Rightarrow> re_sub (py_str field)))"

section \<open>Operations on values\<close>

text \<open>\<^verbatim>\<open>d.get(k, default)\<close> on a dictionary.\<close>

definition dict_get :: "(string \<times> pyval) list \<Rightarrow> string \<Rightarrow> pyval \<Rightarrow> pyval" where
  "dict_get kvs k dflt = (case map_of kvs k of Some v \<Rightarrow> v | None \<Rightarrow> dflt)"

text \<open>\<^verbatim>\<open>v.get(k, default)\<close> on any value: only a dictionary has the method.\<close>

definition py_get :: "pyval \<Rightarrow> string \<Rightarrow> pyval \<Rightarrow> error + pyval" where
  "py_get v k dflt =
     (case v of PDict kvs \<Rightarrow> Inr (dict_get kvs k dflt) | _ \<Rightarrow> Inl AttributeError)"

text \<open>\<^verbatim>\<open>v[k]\<close> with a string \<open>k\<close>: a missing key raises, and no other value takes a string index.\<close>

definition py_getitem :: "pyval \<Rightarrow> string \<Rightarrow> error + pyval" where
  "py_getitem v k =
     (case v of
        PDict kvs \<Rightarrow> (case map_of kvs k of Some x \<Rightarrow> Inr x | None \<Rightarrow> Inl (KeyError k))
      | _ \<Rightarrow> Inl TypeError)"

text \<open>Iteration (\<^verbatim>\<open>for x in v\<close>, \<^verbatim>\<open>list.extend(v)\<close>): a string yields its characters, a dictionary its keys.\<close>

fun py_iter :: "pyval \<Rightarrow> error + pyval list" where
  "py_iter (PList xs) = Inr xs"
| "py_iter (PStr s) = Inr (map (\<lambda>c. PStr [c]) s)"
| "py_iter (PDict kvs) = Inr (map (\<lambda>(k, v). PStr k) kvs)"
| "py_iter _ = Inl TypeError"

text \<open>\<^verbatim>\<open>sub in s\<close> on strings.\<close>

fun is_substring :: "string \<Rightarrow> string \<Rightarrow> bool" where
  "is_substring sub [] = (sub = [])"
| "is_substring sub (c # cs) = (take (length sub) (c # cs) = sub \<or> is_substring sub cs)"

text \<open>\<^verbatim>\<open>k in v\<close> with a string \<open>k\<close>: key of a dictionary, element of a list, substring of a string.\<close>

definition py_contains :: "pyval \<Rightarrow> string \<Rightarrow> error + bool" where
  "py_contains v k =
     (case v of
        PDict kvs \<Rightarrow> Inr (map_of kvs k \<noteq> None)
      | PList xs \<Rightarrow> Inr (PStr k \<in> set xs)
      | PStr s \<Rightarrow> Inr (is_substring k s)
      | _ \<Rightarrow> Inl TypeError)"

text \<open>\<^verbatim>\<open>sep.join(xs)\<close> on a list of values: every element has to be a string.\<close>

fun is_str :: "pyval \<Rightarrow> bool" where
  "is_str (PStr s) = True"
| "is_str _ = False"

fun str_of :: "pyval \<Rightarrow> string" where
  "str_of (PStr s) = s"
| "str_of _ = []"

definition py_join :: "string \<Rightarrow> pyval list \<Rightarrow> error + string" where
  "py_join sep xs =
     (if list_all is_str xs then Inr (str_join sep (map str_of xs)) else Inl TypeError)"

text \<open>
  \<^verbatim>\<open>json.dumps(v)\<close> with its defaults: separators \<^verbatim>\<open>", "\<close> and \<^verbatim>\<open>": "\<close>, and every character
  outside the printable ASCII range escaped.
\<close>

definition json_char :: "char \<Rightarrow> string" where
  "json_char c =
     (if c = CHR 0x22 then [CHR 0x5C, CHR 0x22]
      else if c = CHR 0x5C then [CHR 0x5C, CHR 0x5C]
      else if c = CHR 0x0A then [CHR 0x5C, CHR ''n'']
      else if c = CHR 0x0D then [CHR 0x5C, CHR ''r'']
      else if c = CHR 0x09 then [CHR 0x5C, CHR ''t'']
      else if c = CHR 0x08 then [CHR 0x5C, CHR ''b'']
      else if c = CHR 0x0C then [CHR 0x5C, CHR ''f'']
      else if 32 \<le> (of_char c :: nat) \<and> (of_char c :: nat) \<le> 126 then [c]
      else [CHR 0x5C, CHR ''u'', CHR ''0'', CHR ''0'',
            hex_digit (of_char c div 16), hex_digit (of_char c mod 16)])"

definition json_string :: "string \<Rightarrow> string" where
  "json_string s = CHR 0x22 # concat (map json_char s) @ [CHR 0x22]"

primrec json_dumps :: "pyval \<Rightarrow> string" where
  "json_dumps PNone = ''null''"
| "json_dumps (PBool b) = (if b then ''true'' else ''false'')"
| "json_dumps (PInt i) = int_str i"
| "json_dumps (PStr s) = json_string s"
| "json_dumps (PList xs) = ''['' @ str_join '', '' (map json_dumps xs) @ '']''"
| "json_dumps (PDict kvs) =
     ''{'' @ str_join '', '' (map (\<lambda>(k, r). json_string k @ '': '' @ r)
                                  (map (map_prod id json_dumps) kvs)) @ ''}''"

text \<open>Sequencing of steps that may raise: the first exception ends the computation.\<close>

definition and_then :: "error + 'a \<Rightarrow> ('a \<Rightarrow> error + 'b) \<Rightarrow> error + 'b" where
  "and_then r f = (case r of Inl e \<Rightarrow> Inl e | Inr x \<Rightarrow> f x)"

text \<open>A list comprehension \<^verbatim>\<open>[f(x) for x in xs]\<close> whose body may raise.\<close>

fun comprehension :: "('a \<Rightarrow> error + 'b) \<Rightarrow> 'a list \<Rightarrow> error + 'b list" where
  "comprehension f [] = Inr []"
| "comprehension f (x # xs) =
     and_then (f x) (\<lambda>y. and_then (comprehension f xs) (\<lambda>ys. Inr (y # ys)))"

section \<open>JiraTaskFormatter\<close>

definition get_nested_value ::
  "(string \<times> pyval) list \<Rightarrow> string \<Rightarrow> string option \<Rightarrow> pyval" where
  "get_nested_value data key subkey =
     (case map_of data key of
        None \<Rightarrow> PStr ''''
      | Some v \<Rightarrow>
          if \<not> truthy v then PStr ''''
          else if subkey = None \<or> subkey = Some '''' then v
          else (case v of
                  PDict d \<Rightarrow>
                    (case map_of d (the subkey) of
                       Some x \<Rightarrow> if truthy x then x else PStr ''''
                     | None \<Rightarrow> PStr '''')
                | _ \<Rightarrow> PStr ''''))"

text \<open>The list \<^verbatim>\<open>l2_assignee\<close> (lines 112 and 113 of \<^verbatim>\<open>main.py\<close>).\<close>

definition l2_assignee :: "(string \<times> pyval) list \<Rightarrow> error + pyval list" where
  "l2_assignee fields =
     (if truthy (dict_get fields ''customfield_20145'' PNone)
      then and_then (py_iter (dict_get fields ''customfield_20145'' (PList [])))
             (comprehension (\<lambda>x. py_get x ''emailAddress'' (PStr '''')))
      else Inr [])"

text \<open>\<^verbatim>\<open>vendor_related\<close> (lines 118 to 120).\<close>

definition vendor_related :: "(string \<times> pyval) list \<Rightarrow> error + pyval" where
  "vendor_related fields =
     (case map_of fields ''customfield_20906'' of
        None \<Rightarrow> Inr (PStr '''')
      | Some v \<Rightarrow> if truthy v then py_get v ''value'' (PStr '''') else Inr (PStr ''''))"

text \<open>\<^verbatim>\<open>system_owner\<close> (lines 122 to 124).\<close>

definition system_owner :: "(string \<times> pyval) list \<Rightarrow> error + pyval" where
  "system_owner fields =
     (let v = dict_get fields ''customfield_20157'' PNone
      in if truthy v
         then and_then (py_contains v ''displayName'')
                (\<lambda>c. if c then py_getitem v ''displayName'' else Inr (PStr ''''))
         else Inr (PStr ''''))"

text \<open>\<^verbatim>\<open>fields.get(key, {}).get(attr, "")\<close>, used for the reporter, the status and the priority.\<close>

definition get_get :: "(string \<times> pyval) list \<Rightarrow> string \<Rightarrow> string \<Rightarrow> error + pyval" where
  "get_get fields key attr = py_get (dict_get fields key (PDict [])) attr (PStr '''')"

text \<open>The value under \<^verbatim>\<open>"Error Rate"\<close> (line 153).\<close>

definition error_rate :: "(string \<times> pyval) list \<Rightarrow> pyval" where
  "error_rate fields =
     (let v = dict_get fields ''customfield_20904'' (PInt 0)
      in PStr (py_str (if truthy v then v else PInt 0)))"

text \<open>The value under \<^verbatim>\<open>"Problem Links"\<close> (lines 154 to 157).\<close>

definition problem_links :: "(string \<times> pyval) list \<Rightarrow> error + pyval" where
  "problem_links fields =
     (case map_of fields ''customfield_22301'' of
        None \<Rightarrow> Inr (PStr '''')
      | Some v \<Rightarrow>
          if truthy v
          then and_then (py_contains v ''value'')
                 (\<lambda>c. if c then and_then (py_getitem v ''value'') (\<lambda>x. Inr (PStr (json_dumps x)))
                      else Inr (PStr ''''))
          else Inr (PStr ''''))"

text \<open>
  \<^verbatim>\<open>format_task\<close>, in the order in which Python evaluates it. The first method call on
  \<^verbatim>\<open>fields\<close> is \<^verbatim>\<open>fields.get\<close> on line 113, which raises unless \<^verbatim>\<open>fields\<close> is a dictionary.
\<close>

definition format_task :: "pyval \<Rightarrow> error + (string \<times> pyval) list" where
  "format_task task =
     and_then (py_getitem task ''fields'') (\<lambda>fields_value.
     case fields_value of
       PDict fields \<Rightarrow>
         and_then (l2_assignee fields) (\<lambda>l2.
         and_then (vendor_related fields) (\<lambda>vendor.
         and_then (system_owner fields) (\<lambda>owner.
         and_then (py_getitem task ''key'') (\<lambda>key.
         and_then (get_get fields ''reporter'' ''displayName'') (\<lambda>reporter.
         and_then (py_join '', '' l2) (\<lambda>l2_joined.
         and_then (get_get fields ''status'' ''name'') (\<lambda>status.
         and_then (get_get fields ''priority'' ''name'') (\<lambda>priority.
         and_then (problem_links fields) (\<lambda>links.
         Inr [(''key'', key),
              (''summary'', dict_get fields ''summary'' (PStr '''')),
              (''reporter'', reporter),
              (''L2 Assignee'', PStr l2_joined),
              (''Responsible Team'',
                 PStr (clean_field (dict_get fields ''customfield_20161'' (PStr '''')))),
              (''Incident Detected type'',
                 get_nested_value fields ''customfield_20163'' (Some ''value'')),
              (''Vendor Related Incidents'', vendor),
              (''status'', status),
              (''priority'', priority),
              (''System for incident'',
                 PStr (clean_field (dict_get fields ''customfield_20800'' (PStr '''')))),
              (''System Owner'', owner),
              (''System owner department'',
                 PStr (clean_field (dict_get fields ''customfield_20129'' (PStr '''')))),
              (''Impacted Business Process'',
                 PStr (clean_field (dict_get fields ''customfield_20160'' (PStr '''')))),
              (''Impacted Systems'',
                 PStr (clean_field (dict_get fields ''customfield_20164'' (PStr '''')))),
              (''Incident detected date'', dict_get fields ''customfield_20162'' (PStr '''')),
              (''Incident start date'', dict_get fields ''customfield_20158'' (PStr '''')),
              (''Incident end date'', dict_get fields ''customfield_20159'' (PStr '''')),
              (''Incident Duration'',
                 get_nested_value fields ''customfield_20908'' (Some ''value'')),
              (''Downtime Type'',
                 get_nested_value fields ''customfield_20901'' (Some ''value'')),
              (''Downtime Outage'',
                 get_nested_value fields ''customfield_20902'' (Some ''value'')),
              (''Incident Details'', dict_get fields ''customfield_20136'' (PStr '''')),
              (''Mitigation & Resolution'', dict_get fields ''customfield_20138'' (PStr '''')),
              (''Root Cause Analysis'', dict_get fields ''customfield_20137'' (PStr '''')),
              (''Corrective Actions'', dict_get fields ''customfield_20148'' (PStr '''')),
              (''Incident solution'', dict_get fields ''customfield_20113'' (PStr '''')),
              (''Real downtime duration'', dict_get fields ''customfield_21519'' (PStr '''')),
              (''Error Rate'', error_rate fields),
              (''Problem Links'', links)])))))))))
     | _ \<Rightarrow> Inl AttributeError)"

text \<open>The keys of the dictionary that \<^verbatim>\<open>format_task\<close> returns, in the order of the literal.\<close>

definition columns :: "string list" where
  "columns =
     [''key'', ''summary'', ''reporter'', ''L2 Assignee'', ''Responsible Team'',
      ''Incident Detected type'', ''Vendor Related Incidents'', ''status'', ''priority'',
      ''System for incident'', ''System Owner'', ''System owner department'',
      ''Impacted Business Process'', ''Impacted Systems'', ''Incident detected date'',
      ''Incident start date'', ''Incident end date'', ''Incident Duration'', ''Downtime Type'',
      ''Downtime Outage'', ''Incident Details'', ''Mitigation & Resolution'',
      ''Root Cause Analysis'', ''Corrective Actions'', ''Incident solution'',
      ''Real downtime duration'', ''Error Rate'', ''Problem Links'']"

text \<open>
  The policy that the specification calls conditional nested extraction, in its words: read
  the entry only if the key exists and its value is truthy, then read the named attribute
  from it, with the empty string as default.
\<close>

definition conditional_nested_extraction ::
  "(string \<times> pyval) list \<Rightarrow> string \<Rightarrow> string \<Rightarrow> pyval" where
  "conditional_nested_extraction fs key attr =
     (case map_of fs key of
        None \<Rightarrow> PStr ''''
      | Some v \<Rightarrow>
          if truthy v
          then (case v of PDict d \<Rightarrow> dict_get d attr (PStr '''') | _ \<Rightarrow> PStr '''')
          else PStr '''')"

section \<open>JiraClient\<close>

record params =
  jql :: string
  startAt :: int
  maxResults :: int

text \<open>
  A request either raises a \<^verbatim>\<open>RequestException\<close> (no connection, a status that
  \<^verbatim>\<open>raise_for_status\<close> rejects, a body that is not JSON) with its message, or yields the
  decoded body.
\<close>

datatype response = Failure string | Body pyval

text \<open>
  The world the program runs in: the remote service (a state and, below, a function that
  answers a request in that state), the requests sent so far, the lines printed so far, the
  files by name, and for each file name the message of the error that opening it for writing
  raises, if it does.
\<close>

record 's world =
  server :: 's
  requests :: "params list"
  console :: "string list"
  files :: "string \<rightharpoonup> string"
  open_error :: "string \<rightharpoonup> string"

type_synonym 's jira = "'s \<Rightarrow> params \<Rightarrow> response \<times> 's"

text \<open>
  One pass through the body of \<^verbatim>\<open>while True\<close> in \<^verbatim>\<open>get_tasks\<close>: the loop goes on with a new
  offset and list, or it is left by \<^verbatim>\<open>break\<close>, or an exception other than a
  \<^verbatim>\<open>RequestException\<close> leaves the function.
\<close>

datatype 's iteration =
    Next int "pyval list" "'s world"
  | Done "pyval list" "'s world"
  | Raised error "'s world"

definition get_tasks_iteration ::
  "'s jira \<Rightarrow> string \<Rightarrow> int \<Rightarrow> int \<Rightarrow> pyval list \<Rightarrow> 's world \<Rightarrow> 's iteration" where
  "get_tasks_iteration srv jql_query max_results_per_page start_at all_tasks w =
     (let ps = \<lparr>jql = jql_query, startAt = start_at, maxResults = max_results_per_page\<rparr>;
          (resp, s') = srv (server w) ps;
          w' = w\<lparr>server := s', requests := requests w @ [ps]\<rparr>
      in case resp of
           Failure err \<Rightarrow>
             Done all_tasks
               (w'\<lparr>console := console w' @
                     [''Error occurred while fetching data from Jira: '' @ err]\<rparr>)
         | Body js \<Rightarrow>
             (case py_get js ''issues'' (PList []) of
                Inl e \<Rightarrow> Raised e w'
              | Inr issues \<Rightarrow>
                  (case py_iter issues of
                     Inl e \<Rightarrow> Raised e w'
                   | Inr xs \<Rightarrow>
                       if int (length xs) < max_results_per_page
                       then Done (all_tasks @ xs) w'
                       else Next (start_at + max_results_per_page) (all_tasks @ xs) w')))"

text \<open>The loop may run forever (a service that always answers with a full page): \<open>None\<close>.\<close>

partial_function (option) get_tasks_loop ::
  "'s jira \<Rightarrow> string \<Rightarrow> int \<Rightarrow> int \<Rightarrow> pyval list \<Rightarrow> 's world
     \<Rightarrow> ((error + pyval list) \<times> 's world) option" where
  "get_tasks_loop srv jql_query max_results_per_page start_at all_tasks w =
     (case get_tasks_iteration srv jql_query max_results_per_page start_at all_tasks w of
        Next start_at' all_tasks' w' \<Rightarrow>
          get_tasks_loop srv jql_query max_results_per_page start_at' all_tasks' w'
      | Done tasks w' \<Rightarrow> Some (Inr tasks, w')
      | Raised e w' \<Rightarrow> Some (Inl e, w'))"

definition get_tasks ::
  "'s jira \<Rightarrow> string \<Rightarrow> int \<Rightarrow> 's world \<Rightarrow> ((error + pyval list) \<times> 's world) option" where
  "get_tasks srv jql_query max_results_per_page w =
     get_tasks_loop srv jql_query max_results_per_page 0 [] w"

text \<open>The world in which an iteration ends.\<close>

fun world_after :: "'s iteration \<Rightarrow> 's world" where
  "world_after (Next start_at all_tasks w) = w"
| "world_after (Done all_tasks w) = w"
| "world_after (Raised e w) = w"

text \<open>
  The page of a response: the records that \<^verbatim>\<open>all_tasks.extend(issues)\<close> appends, when the
  request yields a body from which lines 71 and 72 get that far.
\<close>

definition page_of :: "response \<Rightarrow> pyval list option" where
  "page_of r =
     (case r of
        Failure err \<Rightarrow> None
      | Body js \<Rightarrow>
          (case py_get js ''issues'' (PList []) of
             Inl e \<Rightarrow> None
           | Inr issues \<Rightarrow> (case py_iter issues of Inl e \<Rightarrow> None | Inr xs \<Rightarrow> Some xs)))"

text \<open>
  The service, in state \<open>s\<close>, answers the successive requests from the offset \<open>start_at\<close> on
  with the pages \<open>ps\<close>, none of them shorter than the page size, and is then in state \<open>s'\<close>.
\<close>

fun full_pages ::
  "'s jira \<Rightarrow> string \<Rightarrow> int \<Rightarrow> int \<Rightarrow> 's \<Rightarrow> pyval list list \<Rightarrow> 's \<Rightarrow> bool" where
  "full_pages srv q n start_at s [] s' = (s' = s)"
| "full_pages srv q n start_at s (p # ps) s' =
     (case srv s \<lparr>jql = q, startAt = start_at, maxResults = n\<rparr> of
        (r, s1) \<Rightarrow>
          page_of r = Some p \<and> \<not> int (length p) < n
          \<and> full_pages srv q n (start_at + n) s1 ps s')"

text \<open>
  A stub service that plays a fixed list of responses, one for each request whatever it
  asks, and fails once the list is used up; its state is the number of requests answered.
\<close>

definition stub_jira :: "response list \<Rightarrow> nat jira" where
  "stub_jira rs k ps =
     ((if k < length rs then rs ! k else Failure ''connection refused''), Suc k)"

definition page_body :: "pyval list \<Rightarrow> response" where
  "page_body xs = Body (PDict [(''issues'', PList xs)])"

text \<open>A world in which nothing has happened yet and every file can be written.\<close>

definition initial_world :: "nat world" where
  "initial_world =
     \<lparr>server = 0, requests = [], console = [], files = Map.empty, open_error = Map.empty\<rparr>"

section \<open>CSVExporter\<close>

definition fieldnames :: "string list" where
  "fieldnames =
     [''key'', ''summary'', ''reporter'', ''L2 Assignee'', ''Responsible Team'',
      ''Incident Detected type'', ''Vendor Related Incidents'', ''status'', ''priority'',
      ''System for incident'', ''System Owner'', ''System owner department'',
      ''Impacted Business Process'', ''Impacted Systems'', ''Incident detected date'',
      ''Incident start date'', ''Incident end date'', ''Downtime Type'', ''Downtime Outage'',
      ''Incident Duration'', ''Incident Details'', ''Root Cause Analysis'',
      ''Mitigation & Resolution'', ''Corrective Actions'', ''Incident solution'',
      ''Real downtime duration'', ''Error Rate'', ''Problem Links'']"

text \<open>
  \<^verbatim>\<open>csv.DictWriter\<close> with its defaults: a key of the row that is no field name raises, a field
  name that the row lacks is written as the empty string.
\<close>

definition dict_to_list :: "string list \<Rightarrow> (string \<times> pyval) list \<Rightarrow> error + pyval list" where
  "dict_to_list names rowdict =
     (let wrong_fields = filter (\<lambda>k. k \<notin> set names) (map fst rowdict)
      in if wrong_fields \<noteq> []
         then Inl (ValueError (''dict contains fields not in fieldnames: '' @
                               str_join '', '' (map str_repr wrong_fields)))
         else Inr (map (\<lambda>k. dict_get rowdict k (PStr '''')) names))"

text \<open>
  \<^verbatim>\<open>csv.writer.writerow\<close> in the default dialect but for the delimiter: \<^verbatim>\<open>None\<close> is written as
  the empty string, every other value as its \<^verbatim>\<open>str\<close>; a field is quoted when it holds the
  delimiter, the quote character, a carriage return or a line feed, and a quote inside it is
  doubled; a record of one empty field is written as two quotes; the line ends with
  carriage return and line feed.
\<close>

definition csv_text :: "pyval \<Rightarrow> string" where
  "csv_text v = (case v of PNone \<Rightarrow> '''' | _ \<Rightarrow> py_str v)"

definition needs_quotes :: "char \<Rightarrow> string \<Rightarrow> bool" where
  "needs_quotes d s =
     list_ex (\<lambda>c. c = d \<or> c = CHR 0x22 \<or> c = CHR 0x0D \<or> c = CHR 0x0A) s"

definition double_quotes :: "string \<Rightarrow> string" where
  "double_quotes s = concat (map (\<lambda>c. if c = CHR 0x22 then [c, c] else [c]) s)"

definition csv_field :: "char \<Rightarrow> string \<Rightarrow> string" where
  "csv_field d s =
     (if needs_quotes d s then CHR 0x22 # double_quotes s @ [CHR 0x22] else s)"

definition csv_record :: "char \<Rightarrow> string list \<Rightarrow> string" where
  "csv_record d fs =
     (let joined = str_join [d] (map (csv_field d) fs)
      in (if fs \<noteq> [] \<and> joined = [] then [CHR 0x22, CHR 0x22] else joined)
         @ [CHR 0x0D, CHR 0x0A])"

definition writerow :: "char \<Rightarrow> pyval list \<Rightarrow> string" where
  "writerow d vs = csv_record d (map csv_text vs)"

text \<open>
  \<^verbatim>\<open>writer.writerows(data)\<close> appends to the text written so far, row by row; a row that raises
  ends it, and what was written before stays.
\<close>

fun writerows ::
  "char \<Rightarrow> string list \<Rightarrow> (string \<times> pyval) list list \<Rightarrow> string \<Rightarrow> string \<times> error option" where
  "writerows d names [] out = (out, None)"
| "writerows d names (r # rs) out =
     (case dict_to_list names r of
        Inl e \<Rightarrow> (out, Some e)
      | Inr vs \<Rightarrow> writerows d names rs (out @ writerow d vs))"

definition error_text :: "error \<Rightarrow> string" where
  "error_text e =
     (case e of
        KeyError k \<Rightarrow> str_repr k
      | ValueError m \<Rightarrow> m
      | OSError m \<Rightarrow> m
      | _ \<Rightarrow> '''')"

text \<open>
  \<^verbatim>\<open>CSVExporter.export\<close>. A file is the text written to it; the encoding (UTF-8 with a byte
  order mark) lies below this model.
\<close>

definition export ::
  "string \<Rightarrow> char \<Rightarrow> (string \<times> pyval) list list \<Rightarrow> 's world \<Rightarrow> 's world" where
  "export filename delimiter data w =
     (case open_error w filename of
        Some msg \<Rightarrow> w\<lparr>console := console w @ [''Error exporting to CSV: '' @ msg]\<rparr>
      | None \<Rightarrow>
          (let header = writerow delimiter (map PStr fieldnames);
               (out, err) = writerows delimiter fieldnames data header;
               w' = w\<lparr>files := (files w)(filename \<mapsto> out)\<rparr>
           in case err of
                None \<Rightarrow>
                  w'\<lparr>console := console w' @
                        [''Tasks exported to '' @ [CHR 0x27] @ filename @ [CHR 0x27]
                         @ '' successfully.'']\<rparr>
              | Some e \<Rightarrow>
                  w'\<lparr>console := console w' @ [''Error exporting to CSV: '' @ error_text e]\<rparr>))"

section \<open>JiraTaskExporter\<close>

text \<open>
  \<^verbatim>\<open>export_tasks\<close> takes the exporter as a parameter, as the class takes any
  \<^verbatim>\<open>DataExporter\<close>: a function from the rows and the world to the world after the export.
\<close>

definition export_tasks ::
  "'s jira \<Rightarrow> ((string \<times> pyval) list list \<Rightarrow> 's world \<Rightarrow> 's world) \<Rightarrow> string \<Rightarrow> 's world
     \<Rightarrow> ((error + unit) \<times> 's world) option" where
  "export_tasks srv exporter jql_query w =
     (case get_tasks srv jql_query 50 w of
        None \<Rightarrow> None
      | Some (Inl e, w') \<Rightarrow> Some (Inl e, w')
      | Some (Inr tasks, w') \<Rightarrow>
          if tasks = []
          then Some (Inr (), w'\<lparr>console := console w' @ [''No tasks found for the given query.'']\<rparr>)
          else (case comprehension format_task tasks of
                  Inl e \<Rightarrow> Some (Inl e, w')
                | Inr formatted_tasks \<Rightarrow> Some (Inr (), exporter formatted_tasks w')))"

section \<open>Reading the file back\<close>

text \<open>
  Modelled from the spec: the repository writes the file and has no code that reads it. The
  round-trip property speaks of re-reading the file with the same delimiter and of parsing
  its lines; that reader is modelled here as \<^verbatim>\<open>csv.reader\<close> of the Python library run over the
  file opened with \<^verbatim>\<open>newline=''\<close>, in the dialect of the writer (quote character \<^verbatim>\<open>"\<close>, doubled
  inside a quoted field, no escape character, not strict), without its limit on the size of
  a field. A FlatRow is, in the words of the specification, a mapping from the fixed column
  keys to string values, every column present.
\<close>
















section \<open>Properties of the text cleaner\<close>










section \<open>Properties of the formatter\<close>

lemma and_then_Inr:
  "and_then r f = Inr y \<longleftrightarrow> (\<exists>x. r = Inr x \<and> f x = Inr y)"
  by (cases r) (simp_all add: and_then_def)

lemma format_task_Inr:
  assumes "format_task t = Inr row"
  obtains fs l2 vendor owner key reporter l2_joined status priority links where
    "py_getitem t ''fields'' = Inr (PDict fs)"
    "l2_assignee fs = Inr l2"
    "vendor_related fs = Inr vendor"
    "system_owner fs = Inr owner"
    "py_getitem t ''key'' = Inr key"
    "get_get fs ''reporter'' ''displayName'' = Inr reporter"
    "py_join '', '' l2 = Inr l2_joined"
    "get_get fs ''status'' ''name'' = Inr status"
    "get_get fs ''priority'' ''name'' = Inr priority"
    "problem_links fs = Inr links"
    "map fst row = columns"
    "map_of row ''Vendor Related Incidents'' = Some vendor"
    "map_of row ''System Owner'' = Some owner"
proof -
  from assms obtain fv where fv: "py_getitem t ''fields'' = Inr fv"
    by (auto simp: format_task_def and_then_Inr)
  with assms obtain fs where fs: "fv = PDict fs"
    by (cases fv) (auto simp: format_task_def and_then_def)
  from assms fv fs obtain l2 vendor owner key reporter l2_joined status priority links where
    parts: "l2_assignee fs = Inr l2"
    "vendor_related fs = Inr vendor"
    "system_owner fs = Inr owner"
    "py_getitem t ''key'' = Inr key"
    "get_get fs ''reporter'' ''displayName'' = Inr reporter"
    "py_join '', '' l2 = Inr l2_joined"
    "get_get fs ''status'' ''name'' = Inr status"
    "get_get fs ''priority'' ''name'' = Inr priority"
    "problem_links fs = Inr links"
    and row: "map fst row = columns \<and> map_of row ''Vendor Related Incidents'' = Some vendor
       \<and> map_of row ''System Owner'' = Some owner"
    by (auto simp: format_task_def and_then_Inr columns_def)
  with fv fs that show thesis by blast
qed

lemma vendor_related_Inr:
  "vendor_related fs = Inr v \<Longrightarrow> v = conditional_nested_extraction fs ''customfield_20906'' ''value''"
  by (auto simp: vendor_related_def conditional_nested_extraction_def py_get_def
           split: option.splits if_splits pyval.splits)

lemma system_owner_Inr:
  "system_owner fs = Inr v \<Longrightarrow>
     v = conditional_nested_extraction fs ''customfield_20157'' ''displayName''"
  by (auto simp: system_owner_def conditional_nested_extraction_def dict_get_def Let_def
                 py_contains_def py_getitem_def and_then_def
           split: option.splits if_splits pyval.splits)

lemma fieldnames_columns: "set columns = set fieldnames"
  by (simp add: columns_def fieldnames_def insert_commute)

lemma columns_distinct: "distinct columns" "length columns = 28"
  by (simp_all add: columns_def)

lemma fieldnames_distinct: "distinct fieldnames" "length fieldnames = 28"
  by (simp_all add: fieldnames_def)

lemma format_task_keys: "format_task t = Inr row \<Longrightarrow> map fst row = columns"
  by (erule format_task_Inr)

text \<open>
  C4. A row that \<^const>\<open>format_task\<close> returns has 28 keys, no key twice; the keys are the same
  for every record, and as a set they are the 28 names of the header that the exporter
  writes.
\<close>

theorem format_task_column_set:
  assumes "format_task t = Inr row"
  shows "length row = 28 \<and> distinct (map fst row) \<and> set (map fst row) = set fieldnames
         \<and> length fieldnames = 28 \<and> distinct fieldnames
         \<and> (\<forall>t' row'. format_task t' = Inr row' \<longrightarrow> map fst row' = map fst row)"
proof -
  have k: "map fst row = columns" by (rule format_task_keys [OF assms])
  then have "length (map fst row) = 28" by (simp add: columns_distinct)
  then have "length row = 28" by simp
  with k show ?thesis
    by (simp add: columns_distinct fieldnames_columns fieldnames_distinct format_task_keys)
qed

lemma format_task_minimal:
  "\<not> isl (format_task (PDict [(''key'', PStr ''K-1''), (''fields'', PDict [])]))"
  by code_simp

theorem format_task_column_set_witness:
  "\<exists>row. format_task (PDict [(''key'', PStr ''K-1''), (''fields'', PDict [])]) = Inr row
         \<and> length row = 28 \<and> distinct (map fst row) \<and> set (map fst row) = set fieldnames"
proof -
  obtain row where r: "format_task (PDict [(''key'', PStr ''K-1''), (''fields'', PDict [])]) = Inr row"
    using format_task_minimal
    by (cases "format_task (PDict [(''key'', PStr ''K-1''), (''fields'', PDict [])])") simp_all
  from format_task_column_set [OF r] r show ?thesis by blast
qed

lemma vendor_related_dict_or_falsy:
  assumes "\<forall>v. map_of fs ''customfield_20906'' = Some v \<and> truthy v \<longrightarrow> (\<exists>d. v = PDict d)"
  shows "vendor_related fs = Inr (conditional_nested_extraction fs ''customfield_20906'' ''value'')"
proof (cases "map_of fs ''customfield_20906''")
  case None
  then show ?thesis by (simp add: vendor_related_def conditional_nested_extraction_def)
next
  case (Some v)
  show ?thesis
  proof (cases "truthy v")
    case True
    with Some assms obtain d where "v = PDict d" by blast
    with Some True show ?thesis
      by (simp add: vendor_related_def conditional_nested_extraction_def py_get_def)
  next
    case False
    with Some show ?thesis by (simp add: vendor_related_def conditional_nested_extraction_def)
  qed
qed

lemma system_owner_dict_or_falsy:
  assumes "\<forall>v. map_of fs ''customfield_20157'' = Some v \<and> truthy v \<longrightarrow> (\<exists>d. v = PDict d)"
  shows "system_owner fs = Inr (conditional_nested_extraction fs ''customfield_20157'' ''displayName'')"
proof (cases "map_of fs ''customfield_20157''")
  case None
  then show ?thesis
    by (simp add: system_owner_def conditional_nested_extraction_def dict_get_def)
next
  case (Some v)
  show ?thesis
  proof (cases "truthy v")
    case True
    with Some assms obtain d where "v = PDict d" by blast
    with Some True show ?thesis
      by (auto simp: system_owner_def conditional_nested_extraction_def dict_get_def
                     py_contains_def py_getitem_def and_then_def split: option.splits)
  next
    case False
    with Some show ?thesis
      by (simp add: system_owner_def conditional_nested_extraction_def dict_get_def)
  qed
qed

text \<open>
  C6. In a row that \<^const>\<open>format_task\<close> returns, the columns \<^verbatim>\<open>System Owner\<close> and
  \<^verbatim>\<open>Vendor Related Incidents\<close> hold what conditional nested extraction gives for
  \<^verbatim>\<open>customfield_20157\<close> with \<^verbatim>\<open>displayName\<close> and for \<^verbatim>\<open>customfield_20906\<close> with \<^verbatim>\<open>value\<close>;
  a record without \<^verbatim>\<open>customfield_20906\<close> and one where it is null both have the empty string
  under \<^verbatim>\<open>Vendor Related Incidents\<close>. And the attribute is read: a record that has the key,
  on which no other column raises and in which each of the two entries is absent, falsy or
  an object, is accepted, with these values in the two columns; so an object with the
  attribute gives the value of the attribute.
\<close>

theorem format_task_conditional_nested:
  assumes "py_getitem t ''fields'' = Inr (PDict fs)"
  shows "(\<forall>row. format_task t = Inr row \<longrightarrow>
            map_of row ''System Owner'' =
              Some (conditional_nested_extraction fs ''customfield_20157'' ''displayName'')
            \<and> map_of row ''Vendor Related Incidents'' =
              Some (conditional_nested_extraction fs ''customfield_20906'' ''value'')
            \<and> (map_of fs ''customfield_20906'' = None
                 \<or> map_of fs ''customfield_20906'' = Some PNone
                 \<longrightarrow> map_of row ''Vendor Related Incidents'' = Some (PStr '''')))
         \<and> (\<not> isl (py_getitem t ''key'')
              \<and> \<not> isl (and_then (l2_assignee fs) (py_join '', ''))
              \<and> \<not> isl (get_get fs ''reporter'' ''displayName'')
              \<and> \<not> isl (get_get fs ''status'' ''name'')
              \<and> \<not> isl (get_get fs ''priority'' ''name'')
              \<and> \<not> isl (problem_links fs)
              \<and> (\<forall>v. map_of fs ''customfield_20906'' = Some v \<and> truthy v \<longrightarrow> (\<exists>d. v = PDict d))
              \<and> (\<forall>v. map_of fs ''customfield_20157'' = Some v \<and> truthy v \<longrightarrow> (\<exists>d. v = PDict d))
             \<longrightarrow> (\<exists>row. format_task t = Inr row
                    \<and> map_of row ''System Owner'' =
                        Some (conditional_nested_extraction fs ''customfield_20157'' ''displayName'')
                    \<and> map_of row ''Vendor Related Incidents'' =
                        Some (conditional_nested_extraction fs ''customfield_20906'' ''value'')))
         \<and> (\<forall>d x. map_of fs ''customfield_20906'' = Some (PDict d) \<and> map_of d ''value'' = Some x
               \<longrightarrow> conditional_nested_extraction fs ''customfield_20906'' ''value'' = x)
         \<and> (\<forall>d x. map_of fs ''customfield_20157'' = Some (PDict d)
                 \<and> map_of d ''displayName'' = Some x
               \<longrightarrow> conditional_nested_extraction fs ''customfield_20157'' ''displayName'' = x)"
proof -
  have accepted: "map_of row ''System Owner'' =
              Some (conditional_nested_extraction fs ''customfield_20157'' ''displayName'')
            \<and> map_of row ''Vendor Related Incidents'' =
              Some (conditional_nested_extraction fs ''customfield_20906'' ''value'')
            \<and> (map_of fs ''customfield_20906'' = None
                 \<or> map_of fs ''customfield_20906'' = Some PNone
                 \<longrightarrow> map_of row ''Vendor Related Incidents'' = Some (PStr ''''))"
    if r: "format_task t = Inr row" for row
  proof -
    from r obtain fs' vendor owner where
      f: "py_getitem t ''fields'' = Inr (PDict fs')" and
      v: "vendor_related fs' = Inr vendor" "map_of row ''Vendor Related Incidents'' = Some vendor" and
      s: "system_owner fs' = Inr owner" "map_of row ''System Owner'' = Some owner"
      by (auto elim: format_task_Inr)
    from f assms have [simp]: "fs' = fs" by simp
    from v s show ?thesis
      by (auto dest!: vendor_related_Inr system_owner_Inr simp: conditional_nested_extraction_def)
  qed
  have accepts: "\<exists>row. format_task t = Inr row
                    \<and> map_of row ''System Owner'' =
                        Some (conditional_nested_extraction fs ''customfield_20157'' ''displayName'')
                    \<and> map_of row ''Vendor Related Incidents'' =
                        Some (conditional_nested_extraction fs ''customfield_20906'' ''value'')"
    if k: "\<not> isl (py_getitem t ''key'')"
      and l: "\<not> isl (and_then (l2_assignee fs) (py_join '', ''))"
      and g: "\<not> isl (get_get fs ''reporter'' ''displayName'')"
             "\<not> isl (get_get fs ''status'' ''name'')"
             "\<not> isl (get_get fs ''priority'' ''name'')"
      and p: "\<not> isl (problem_links fs)"
      and v: "\<forall>v. map_of fs ''customfield_20906'' = Some v \<and> truthy v \<longrightarrow> (\<exists>d. v = PDict d)"
      and s: "\<forall>v. map_of fs ''customfield_20157'' = Some v \<and> truthy v \<longrightarrow> (\<exists>d. v = PDict d)"
  proof -
    from k obtain key where key: "py_getitem t ''key'' = Inr key"
      by (cases "py_getitem t ''key''") simp_all
    from l obtain l2 joined where l2: "l2_assignee fs = Inr l2" "py_join '', '' l2 = Inr joined"
      by (cases "l2_assignee fs"; cases "and_then (l2_assignee fs) (py_join '', '')")
         (simp_all add: and_then_def)
    from g obtain reporter status priority where
      gg: "get_get fs ''reporter'' ''displayName'' = Inr reporter"
          "get_get fs ''status'' ''name'' = Inr status"
          "get_get fs ''priority'' ''name'' = Inr priority"
      by (cases "get_get fs ''reporter'' ''displayName''"; cases "get_get fs ''status'' ''name''";
          cases "get_get fs ''priority'' ''name''") simp_all
    from p obtain links where links: "problem_links fs = Inr links"
      by (cases "problem_links fs") simp_all
    note vr = vendor_related_dict_or_falsy [OF v]
    note so = system_owner_dict_or_falsy [OF s]
    show ?thesis
      by (simp add: format_task_def assms key l2 gg links vr so and_then_def)
  qed
  have vendor_value: "conditional_nested_extraction fs ''customfield_20906'' ''value'' = x"
    if "map_of fs ''customfield_20906'' = Some (PDict d)" "map_of d ''value'' = Some x" for d x
    using that by (auto simp: conditional_nested_extraction_def dict_get_def)
  have owner_value: "conditional_nested_extraction fs ''customfield_20157'' ''displayName'' = x"
    if "map_of fs ''customfield_20157'' = Some (PDict d)" "map_of d ''displayName'' = Some x" for d x
    using that by (auto simp: conditional_nested_extraction_def dict_get_def)
  from accepted accepts vendor_value owner_value show ?thesis by blast
qed

lemma format_task_null_vendor:
  "\<not> isl (format_task (PDict [(''key'', PStr ''K-2''),
        (''fields'', PDict [(''customfield_20906'', PNone)])]))"
  by code_simp

theorem format_task_conditional_nested_witness:
  "(\<exists>row. format_task (PDict [(''key'', PStr ''K-1''), (''fields'', PDict [])]) = Inr row
      \<and> map_of row ''Vendor Related Incidents'' = Some (PStr '''')
      \<and> map_of row ''System Owner'' = Some (PStr ''''))
   \<and> (\<exists>row. format_task (PDict [(''key'', PStr ''K-2''),
          (''fields'', PDict [(''customfield_20906'', PNone)])]) = Inr row
      \<and> map_of row ''Vendor Related Incidents'' = Some (PStr '''')
      \<and> map_of row ''System Owner'' = Some (PStr ''''))
   \<and> (\<exists>row. format_task (PDict [(''key'', PStr ''K-3''),
          (''fields'', PDict [(''customfield_20906'', PDict [(''value'', PStr ''Yes'')]),
                              (''customfield_20157'', PDict [(''displayName'', PStr ''Ann'')])])])
            = Inr row
      \<and> map_of row ''Vendor Related Incidents'' = Some (PStr ''Yes'')
      \<and> map_of row ''System Owner'' = Some (PStr ''Ann''))"
proof -
  let ?t1 = "PDict [(''key'', PStr ''K-1''), (''fields'', PDict [])]"
  let ?t2 = "PDict [(''key'', PStr ''K-2''), (''fields'', PDict [(''customfield_20906'', PNone)])]"
  let ?fs3 = "[(''customfield_20906'', PDict [(''value'', PStr ''Yes'')]),
               (''customfield_20157'', PDict [(''displayName'', PStr ''Ann'')])]"
  let ?t3 = "PDict [(''key'', PStr ''K-3''), (''fields'', PDict ?fs3)]"
  obtain r1 where r1: "format_task ?t1 = Inr r1"
    using format_task_minimal
    by (cases "format_task (PDict [(''key'', PStr ''K-1''), (''fields'', PDict [])])") simp_all
  obtain r2 where r2: "format_task ?t2 = Inr r2"
    using format_task_null_vendor by (cases "format_task ?t2") simp_all
  have f1: "py_getitem ?t1 ''fields'' = Inr (PDict [])"
    and f2: "py_getitem ?t2 ''fields'' = Inr (PDict [(''customfield_20906'', PNone)])"
    and f3: "py_getitem ?t3 ''fields'' = Inr (PDict ?fs3)"
    by (simp_all add: py_getitem_def)
  note T1 = format_task_conditional_nested [OF f1, THEN conjunct1, rule_format, OF r1]
  note T2 = format_task_conditional_nested [OF f2, THEN conjunct1, rule_format, OF r2]
  have a: "\<exists>row. format_task ?t1 = Inr row
      \<and> map_of row ''Vendor Related Incidents'' = Some (PStr '''')
      \<and> map_of row ''System Owner'' = Some (PStr '''')"
    using T1 r1 by (simp add: conditional_nested_extraction_def)
  have b: "\<exists>row. format_task ?t2 = Inr row
      \<and> map_of row ''Vendor Related Incidents'' = Some (PStr '''')
      \<and> map_of row ''System Owner'' = Some (PStr '''')"
    using T2 r2 by (simp add: conditional_nested_extraction_def)
  have h: "\<not> isl (py_getitem ?t3 ''key'')
              \<and> \<not> isl (and_then (l2_assignee ?fs3) (py_join '', ''))
              \<and> \<not> isl (get_get ?fs3 ''reporter'' ''displayName'')
              \<and> \<not> isl (get_get ?fs3 ''status'' ''name'')
              \<and> \<not> isl (get_get ?fs3 ''priority'' ''name'')
              \<and> \<not> isl (problem_links ?fs3)
              \<and> (\<forall>v. map_of ?fs3 ''customfield_20906'' = Some v \<and> truthy v \<longrightarrow> (\<exists>d. v = PDict d))
              \<and> (\<forall>v. map_of ?fs3 ''customfield_20157'' = Some v \<and> truthy v \<longrightarrow> (\<exists>d. v = PDict d))"
    by (simp add: py_getitem_def l2_assignee_def dict_get_def get_get_def py_get_def
                  problem_links_def py_join_def and_then_def)
  have c: "\<exists>row. format_task ?t3 = Inr row
      \<and> map_of row ''Vendor Related Incidents'' = Some (PStr ''Yes'')
      \<and> map_of row ''System Owner'' = Some (PStr ''Ann'')"
    using format_task_conditional_nested [OF f3, THEN conjunct2, THEN conjunct1, rule_format, OF h]
    by (auto simp: conditional_nested_extraction_def dict_get_def)
  from a b c show ?thesis by blast
qed

text \<open>
  C7. A record with the key and the \<^verbatim>\<open>fields\<close> dictionary in which \<^verbatim>\<open>reporter\<close> is null makes
  \<^const>\<open>format_task\<close> raise \<^verbatim>\<open>AttributeError\<close>: the default of \<^verbatim>\<open>fields.get("reporter", {})\<close>
  stands in for a missing entry only, and \<^verbatim>\<open>None\<close> has no method \<^verbatim>\<open>get\<close>. The same record
  without the entry is accepted.
\<close>

theorem format_task_null_reporter:
  "format_task (PDict [(''key'', PStr ''K-1''), (''fields'', PDict [(''reporter'', PNone)])])
     = Inl AttributeError
   \<and> \<not> isl (format_task (PDict [(''key'', PStr ''K-1''), (''fields'', PDict [])]))"
  by code_simp

section \<open>Properties of the client\<close>

lemma get_tasks_iteration_failure:
  assumes "srv (server w) \<lparr>jql = q, startAt = sa, maxResults = n\<rparr> = (Failure err, s')"
  shows "get_tasks_iteration srv q n sa got w =
           Done got (w\<lparr>server := s',
                       requests := requests w @ [\<lparr>jql = q, startAt = sa, maxResults = n\<rparr>],
                       console := console w @
                         [''Error occurred while fetching data from Jira: '' @ err]\<rparr>)"
  using assms by (simp add: get_tasks_iteration_def)

lemma get_tasks_iteration_page:
  assumes "srv (server w) \<lparr>jql = q, startAt = sa, maxResults = n\<rparr> = (r, s')"
      and "page_of r = Some xs"
  shows "get_tasks_iteration srv q n sa got w =
           (let w' = w\<lparr>server := s',
                       requests := requests w @ [\<lparr>jql = q, startAt = sa, maxResults = n\<rparr>]\<rparr>
            in if int (length xs) < n then Done (got @ xs) w'
               else Next (sa + n) (got @ xs) w')"
  using assms
  by (auto simp: get_tasks_iteration_def page_of_def split: response.splits sum.splits)

lemma get_tasks_iteration_requests:
  "requests (world_after (get_tasks_iteration srv q n sa got w)) =
     requests w @ [\<lparr>jql = q, startAt = sa, maxResults = n\<rparr>]"
  by (auto simp: get_tasks_iteration_def Let_def split: prod.splits response.splits sum.splits)

lemma get_tasks_iteration_files:
  "files (world_after (get_tasks_iteration srv q n sa got w)) = files w"
  by (auto simp: get_tasks_iteration_def Let_def split: prod.splits response.splits sum.splits)

lemma get_tasks_iteration_Done:
  assumes "get_tasks_iteration srv q n sa got w = Done ts w'"
  shows "\<exists>r. srv (server w) \<lparr>jql = q, startAt = sa, maxResults = n\<rparr> = (r, server w')
            \<and> ((\<exists>err. r = Failure err \<and> ts = got)
               \<or> (\<exists>xs. page_of r = Some xs \<and> int (length xs) < n \<and> ts = got @ xs))"
proof -
  obtain r s1 where r: "srv (server w) \<lparr>jql = q, startAt = sa, maxResults = n\<rparr> = (r, s1)"
    by (cases "srv (server w) \<lparr>jql = q, startAt = sa, maxResults = n\<rparr>")
  show ?thesis
  proof (cases r)
    case (Failure err)
    with r assms show ?thesis by (auto simp: get_tasks_iteration_def)
  next
    case (Body js)
    with r assms show ?thesis
      by (auto simp: get_tasks_iteration_def page_of_def Let_def split: sum.splits if_splits)
  qed
qed

lemma get_tasks_loop_failure:
  assumes "srv (server w) \<lparr>jql = q, startAt = sa, maxResults = n\<rparr> = (Failure err, s')"
  shows "get_tasks_loop srv q n sa got w =
           Some (Inr got,
                 w\<lparr>server := s',
                   requests := requests w @ [\<lparr>jql = q, startAt = sa, maxResults = n\<rparr>],
                   console := console w @
                     [''Error occurred while fetching data from Jira: '' @ err]\<rparr>)"
  by (subst get_tasks_loop.simps) (simp add: get_tasks_iteration_failure [where srv = srv and w = w, OF assms])

lemma get_tasks_loop_short_page:
  assumes "srv (server w) \<lparr>jql = q, startAt = sa, maxResults = n\<rparr> = (r, s')"
      and "page_of r = Some xs" and "int (length xs) < n"
  shows "get_tasks_loop srv q n sa got w =
           Some (Inr (got @ xs),
                 w\<lparr>server := s',
                   requests := requests w @ [\<lparr>jql = q, startAt = sa, maxResults = n\<rparr>]\<rparr>)"
  by (subst get_tasks_loop.simps) (simp add: get_tasks_iteration_page [where srv = srv and w = w, OF assms(1,2)] assms(3))

lemma get_tasks_loop_full_page:
  assumes "srv (server w) \<lparr>jql = q, startAt = sa, maxResults = n\<rparr> = (r, s')"
      and "page_of r = Some xs" and "\<not> int (length xs) < n"
  shows "get_tasks_loop srv q n sa got w =
           get_tasks_loop srv q n (sa + n) (got @ xs)
             (w\<lparr>server := s',
                requests := requests w @ [\<lparr>jql = q, startAt = sa, maxResults = n\<rparr>]\<rparr>)"
  by (subst get_tasks_loop.simps) (simp add: get_tasks_iteration_page [where srv = srv and w = w, OF assms(1,2)] assms(3))

lemma upt_0_Suc_map: "map f [0..<Suc k] = f 0 # map (\<lambda>i. f (Suc i)) [0..<k]"
  by (simp only: upt_conv_Cons [of 0 "Suc k"] map_Suc_upt [symmetric]) (simp add: comp_def)

lemma get_tasks_loop_full_pages:
  assumes "full_pages srv q n sa (server w) ps s'"
  shows "get_tasks_loop srv q n sa got w =
           get_tasks_loop srv q n (sa + n * int (length ps)) (got @ concat ps)
             (w\<lparr>server := s',
                requests := requests w @
                  map (\<lambda>i. \<lparr>jql = q, startAt = sa + n * int i, maxResults = n\<rparr>) [0..<length ps]\<rparr>)"
  using assms
proof (induction ps arbitrary: sa got w)
  case Nil
  then show ?case by simp
next
  case (Cons p ps)
  obtain r s1 where r: "srv (server w) \<lparr>jql = q, startAt = sa, maxResults = n\<rparr> = (r, s1)"
    by (cases "srv (server w) \<lparr>jql = q, startAt = sa, maxResults = n\<rparr>")
  with Cons.prems have p: "page_of r = Some p" "\<not> int (length p) < n"
    and rest: "full_pages srv q n (sa + n) s1 ps s'"
    by simp_all
  let ?w1 = "w\<lparr>server := s1,
                requests := requests w @ [\<lparr>jql = q, startAt = sa, maxResults = n\<rparr>]\<rparr>"
  have "get_tasks_loop srv q n sa got w = get_tasks_loop srv q n (sa + n) (got @ p) ?w1"
    by (rule get_tasks_loop_full_page [where srv = srv and w = w, OF r p])
  also have "\<dots> = get_tasks_loop srv q n (sa + n + n * int (length ps)) ((got @ p) @ concat ps)
      (?w1\<lparr>server := s',
           requests := requests ?w1 @
             map (\<lambda>i. \<lparr>jql = q, startAt = sa + n + n * int i, maxResults = n\<rparr>) [0..<length ps]\<rparr>)"
    by (rule Cons.IH) (simp add: rest)
  finally show ?case
    by (simp add: upt_0_Suc_map algebra_simps del: upt_Suc)
qed

lemma get_tasks_loop_result:
  assumes "get_tasks_loop srv q n sa got w = Some (res, wend)"
  shows "\<exists>sa' got' w'.
           (\<exists>ts. get_tasks_iteration srv q n sa' got' w' = Done ts wend \<and> res = Inr ts)
           \<or> (\<exists>e. get_tasks_iteration srv q n sa' got' w' = Raised e wend \<and> res = Inl e)"
proof -
  let ?P = "\<lambda>srv q n (sa :: int) (got :: pyval list) (w :: 'a world) y.
     \<exists>sa' got' w'.
       (\<exists>ts. get_tasks_iteration srv q n sa' got' w' = Done ts (snd y) \<and> fst y = Inr ts)
       \<or> (\<exists>e. get_tasks_iteration srv q n sa' got' w' = Raised e (snd y) \<and> fst y = Inl e)"
  have "?P srv q n sa got w (res, wend)"
  proof (rule get_tasks_loop.raw_induct [where P = ?P, OF _ assms])
    fix loop srv q n sa got w y
    assume IH: "\<And>srv q n sa got w y. loop srv q n sa got w = Some y \<Longrightarrow> ?P srv q n sa got w y"
      and eq: "(case get_tasks_iteration srv q n sa got w of
                  Next sa' got' w' \<Rightarrow> loop srv q n sa' got' w'
                | Done ts w' \<Rightarrow> Some (Inr ts, w')
                | Raised e w' \<Rightarrow> Some (Inl e, w')) = Some y"
    show "?P srv q n sa got w y"
    proof (cases "get_tasks_iteration srv q n sa got w")
      case (Next sa' got' w')
      with eq have "loop srv q n sa' got' w' = Some y" by simp
      from IH [OF this] show ?thesis .
    next
      case (Done ts w')
      with eq show ?thesis by force
    next
      case (Raised e w')
      with eq show ?thesis by force
    qed
  qed
  then show ?thesis by simp
qed

lemma get_tasks_loop_files:
  assumes "get_tasks_loop srv q n sa got w = Some (res, wend)"
  shows "files wend = files w"
proof -
  let ?P = "\<lambda>(srv :: 'a jira) (q :: string) (n :: int) (sa :: int) (got :: pyval list)
              (w :: 'a world) (y :: (error + pyval list) \<times> 'a world). files (snd y) = files w"
  have "?P srv q n sa got w (res, wend)"
  proof (rule get_tasks_loop.raw_induct [where P = ?P, OF _ assms])
    fix loop and srv :: "'a jira" and q n sa got and w :: "'a world" and y
    assume IH: "\<And>srv q n sa got w y. loop srv q n sa got w = Some y \<Longrightarrow> ?P srv q n sa got w y"
      and eq: "(case get_tasks_iteration srv q n sa got w of
                  Next sa' got' w' \<Rightarrow> loop srv q n sa' got' w'
                | Done ts w' \<Rightarrow> Some (Inr ts, w')
                | Raised e w' \<Rightarrow> Some (Inl e, w')) = Some y"
    have f: "files (world_after (get_tasks_iteration srv q n sa got w)) = files w"
      by (rule get_tasks_iteration_files)
    show "?P srv q n sa got w y"
    proof (cases "get_tasks_iteration srv q n sa got w")
      case (Next sa' got' w')
      with eq have "loop srv q n sa' got' w' = Some y" by simp
      from IH [OF this] f Next show ?thesis by simp
    next
      case (Done ts w')
      with eq f show ?thesis by auto
    next
      case (Raised e w')
      with eq f show ?thesis by auto
    qed
  qed
  then show ?thesis by simp
qed

lemma page_of_page_body: "page_of (page_body xs) = Some xs"
  by (simp add: page_of_def page_body_def py_get_def dict_get_def)

lemma page_of_Failure: "page_of (Failure err) = None"
  by (simp add: page_of_def)

text \<open>
  C1. When the service answers the requests at the offsets 0, 50 and 100 with pages of 50, 50
  and 12 records, \<^const>\<open>get_tasks\<close> with page size 50 returns the 112 records, each page in
  the order the service gave it and the pages in the order of the requests, and sends these
  three requests and no other.
\<close>

theorem get_tasks_three_pages:
  assumes "srv (server w) \<lparr>jql = q, startAt = 0, maxResults = 50\<rparr> = (r1, s1)"
      and "page_of r1 = Some p1" and "length p1 = 50"
      and "srv s1 \<lparr>jql = q, startAt = 50, maxResults = 50\<rparr> = (r2, s2)"
      and "page_of r2 = Some p2" and "length p2 = 50"
      and "srv s2 \<lparr>jql = q, startAt = 100, maxResults = 50\<rparr> = (r3, s3)"
      and "page_of r3 = Some p3" and "length p3 = 12"
  shows "get_tasks srv q 50 w =
           Some (Inr (p1 @ p2 @ p3),
                 w\<lparr>server := s3,
                   requests := requests w @
                     [\<lparr>jql = q, startAt = 0, maxResults = 50\<rparr>,
                      \<lparr>jql = q, startAt = 50, maxResults = 50\<rparr>,
                      \<lparr>jql = q, startAt = 100, maxResults = 50\<rparr>]\<rparr>)
         \<and> length (p1 @ p2 @ p3) = 112"
proof -
  have full: "full_pages srv q 50 0 (server w) [p1, p2] s2"
    using assms by simp
  let ?w2 = "w\<lparr>server := s2,
                requests := requests w @
                  map (\<lambda>i. \<lparr>jql = q, startAt = 0 + 50 * int i, maxResults = 50\<rparr>) [0..<length [p1, p2]]\<rparr>"
  have "get_tasks_loop srv q 50 0 [] w =
          get_tasks_loop srv q 50 (0 + 50 * int (length [p1, p2])) ([] @ concat [p1, p2]) ?w2"
    by (rule get_tasks_loop_full_pages [OF full])
  also have "\<dots> = get_tasks_loop srv q 50 100 (p1 @ p2) ?w2" by simp
  also have "\<dots> = Some (Inr ((p1 @ p2) @ p3),
                 ?w2\<lparr>server := s3,
                     requests := requests ?w2 @ [\<lparr>jql = q, startAt = 100, maxResults = 50\<rparr>]\<rparr>)"
    by (rule get_tasks_loop_short_page [where r = r3]) (simp_all add: assms)
  finally show ?thesis
    using assms(3,6,9) by (simp add: get_tasks_def upt_rec [of 0] upt_rec [of 1] upt_rec [of 2])
qed

theorem get_tasks_three_pages_witness:
  "get_tasks (stub_jira [page_body (replicate 50 (PStr ''a'')), page_body (replicate 50 (PStr ''b'')),
                         page_body (replicate 12 (PStr ''c''))]) ''project = X'' 50 initial_world =
     Some (Inr (replicate 50 (PStr ''a'') @ replicate 50 (PStr ''b'') @ replicate 12 (PStr ''c'')),
           initial_world\<lparr>server := 3,
             requests := [\<lparr>jql = ''project = X'', startAt = 0, maxResults = 50\<rparr>,
                          \<lparr>jql = ''project = X'', startAt = 50, maxResults = 50\<rparr>,
                          \<lparr>jql = ''project = X'', startAt = 100, maxResults = 50\<rparr>]\<rparr>)"
proof -
  let ?srv = "stub_jira [page_body (replicate 50 (PStr ''a'')), page_body (replicate 50 (PStr ''b'')),
                         page_body (replicate 12 (PStr ''c''))]"
  have 1: "?srv (server initial_world) \<lparr>jql = ''project = X'', startAt = 0, maxResults = 50\<rparr>
             = (page_body (replicate 50 (PStr ''a'')), 1)"
    and 2: "?srv 1 \<lparr>jql = ''project = X'', startAt = 50, maxResults = 50\<rparr>
             = (page_body (replicate 50 (PStr ''b'')), 2)"
    and 3: "?srv 2 \<lparr>jql = ''project = X'', startAt = 100, maxResults = 50\<rparr>
             = (page_body (replicate 12 (PStr ''c'')), 3)"
    by (simp_all add: stub_jira_def initial_world_def)
  from get_tasks_three_pages [where srv = ?srv and w = initial_world, OF 1 page_of_page_body _ 2 page_of_page_body _ 3 page_of_page_body]
  show ?thesis by (simp add: initial_world_def)
qed

text \<open>
  C2, as amended. When the service has answered the requests so far with full pages and the
  next request fails, \<^const>\<open>get_tasks\<close> ends with that request: it prints the error and
  returns the records of the pages before, in order. With one page of 50 records at page size
  50, the request that fails is the second one, at offset 50, and the 50 records are
  returned.
\<close>

theorem get_tasks_request_failure:
  assumes "full_pages srv q n 0 (server w) ps s"
      and "srv s \<lparr>jql = q, startAt = n * int (length ps), maxResults = n\<rparr> = (Failure err, s')"
  shows "get_tasks srv q n w =
           Some (Inr (concat ps),
                 w\<lparr>server := s',
                   requests := requests w @
                     map (\<lambda>i. \<lparr>jql = q, startAt = n * int i, maxResults = n\<rparr>) [0..<Suc (length ps)],
                   console := console w @
                     [''Error occurred while fetching data from Jira: '' @ err]\<rparr>)
         \<and> (\<forall>p. ps = [p] \<and> n = 50 \<longrightarrow>
               get_tasks srv q 50 w =
                 Some (Inr p,
                       w\<lparr>server := s',
                         requests := requests w @
                           [\<lparr>jql = q, startAt = 0, maxResults = 50\<rparr>,
                            \<lparr>jql = q, startAt = 50, maxResults = 50\<rparr>],
                         console := console w @
                           [''Error occurred while fetching data from Jira: '' @ err]\<rparr>))"
proof -
  let ?w1 = "w\<lparr>server := s,
                requests := requests w @
                  map (\<lambda>i. \<lparr>jql = q, startAt = 0 + n * int i, maxResults = n\<rparr>) [0..<length ps]\<rparr>"
  have "get_tasks_loop srv q n 0 [] w =
          get_tasks_loop srv q n (0 + n * int (length ps)) ([] @ concat ps) ?w1"
    by (rule get_tasks_loop_full_pages [OF assms(1)])
  also have "\<dots> = get_tasks_loop srv q n (n * int (length ps)) (concat ps) ?w1" by simp
  also have "\<dots> = Some (Inr (concat ps),
       ?w1\<lparr>server := s',
           requests := requests ?w1 @ [\<lparr>jql = q, startAt = n * int (length ps), maxResults = n\<rparr>],
           console := console ?w1 @ [''Error occurred while fetching data from Jira: '' @ err]\<rparr>)"
    by (rule get_tasks_loop_failure) (simp add: assms(2))
  finally have main: "get_tasks srv q n w =
           Some (Inr (concat ps),
                 w\<lparr>server := s',
                   requests := requests w @
                     map (\<lambda>i. \<lparr>jql = q, startAt = n * int i, maxResults = n\<rparr>) [0..<Suc (length ps)],
                   console := console w @
                     [''Error occurred while fetching data from Jira: '' @ err]\<rparr>)"
    by (simp add: get_tasks_def)
  have "get_tasks srv q 50 w =
                 Some (Inr p,
                       w\<lparr>server := s',
                         requests := requests w @
                           [\<lparr>jql = q, startAt = 0, maxResults = 50\<rparr>,
                            \<lparr>jql = q, startAt = 50, maxResults = 50\<rparr>],
                         console := console w @
                           [''Error occurred while fetching data from Jira: '' @ err]\<rparr>)"
    if "ps = [p]" "n = 50" for p
    using main that by (simp add: upt_rec [of 0] upt_rec [of 1])
  with main show ?thesis by blast
qed

lemma stub_one_full_page:
  "full_pages (stub_jira [page_body (replicate 50 x)]) q 50 0 0 [replicate 50 x] 1"
  by (simp add: stub_jira_def page_of_page_body)

theorem get_tasks_request_failure_witness:
  "get_tasks (stub_jira [page_body (replicate 50 (PStr ''a''))]) ''project = X'' 50 initial_world =
     Some (Inr (replicate 50 (PStr ''a'')),
           initial_world\<lparr>server := 2,
             requests := [\<lparr>jql = ''project = X'', startAt = 0, maxResults = 50\<rparr>,
                          \<lparr>jql = ''project = X'', startAt = 50, maxResults = 50\<rparr>],
             console := [''Error occurred while fetching data from Jira: connection refused'']\<rparr>)"
proof -
  let ?srv = "stub_jira [page_body (replicate 50 (PStr ''a''))]"
  have f: "full_pages ?srv ''project = X'' 50 0 (server initial_world) [replicate 50 (PStr ''a'')] 1"
    using stub_one_full_page by (simp add: initial_world_def)
  have g: "?srv 1 \<lparr>jql = ''project = X'', startAt = 50 * int (length [replicate 50 (PStr ''a'')]),
                     maxResults = 50\<rparr> = (Failure ''connection refused'', 2)"
    by (simp add: stub_jira_def)
  from get_tasks_request_failure [OF f g] show ?thesis
    by (simp add: initial_world_def)
qed

text \<open>
  Against a stub that serves one page of 50 records and then fails, \<^const>\<open>get_tasks\<close> sends
  two requests in all: the confirming request is the second, and there is no fourth.
\<close>

theorem get_tasks_one_page_two_requests:
  "map_option (\<lambda>(res, w). (res, length (requests w)))
     (get_tasks (stub_jira [page_body (replicate 50 (PStr ''a''))]) ''project = X'' 50 initial_world)
   = Some (Inr (replicate 50 (PStr ''a'')), 2)"
proof -
  let ?srv = "stub_jira [page_body (replicate 50 (PStr ''a''))]"
  let ?p0 = "\<lparr>jql = ''project = X'', startAt = 0, maxResults = 50\<rparr>"
  let ?p1 = "\<lparr>jql = ''project = X'', startAt = 50, maxResults = 50\<rparr>"
  let ?w1 = "initial_world\<lparr>server := 1, requests := requests initial_world @ [?p0]\<rparr>"
  have a: "?srv (server initial_world) ?p0 = (page_body (replicate 50 (PStr ''a'')), 1)"
    by (simp add: stub_jira_def initial_world_def)
  have "get_tasks_loop ?srv ''project = X'' 50 0 [] initial_world =
          get_tasks_loop ?srv ''project = X'' 50 (0 + 50) ([] @ replicate 50 (PStr ''a'')) ?w1"
    by (rule get_tasks_loop_full_page [where r = "page_body (replicate 50 (PStr ''a''))"])
       (simp_all add: a page_of_page_body)
  also have "\<dots> = Some (Inr (([] @ replicate 50 (PStr ''a''))),
        ?w1\<lparr>server := 2, requests := requests ?w1 @ [\<lparr>jql = ''project = X'', startAt = 0 + 50, maxResults = 50\<rparr>],
            console := console ?w1 @ [''Error occurred while fetching data from Jira: '' @ ''connection refused'']\<rparr>)"
    by (rule get_tasks_loop_failure) (simp add: stub_jira_def)
  finally show ?thesis
    by (simp add: get_tasks_def initial_world_def)
qed

text \<open>
  C5. When a request is answered with exactly as many records as the page size, the
  iteration does not leave the loop: the loop goes on at the next offset, and the iteration
  there sends a request at that offset whatever it is answered; if the answer is an empty
  page (and the page size is positive) the run ends there with the records so far. A run
  that returns a list ended on a request that failed or on a page shorter than the page
  size.
\<close>

theorem get_tasks_full_page_continues:
  assumes "srv (server w) \<lparr>jql = q, startAt = sa, maxResults = n\<rparr> = (r, s')"
      and "page_of r = Some xs" and "int (length xs) = n"
  shows "get_tasks_iteration srv q n sa got w =
           Next (sa + n) (got @ xs)
             (w\<lparr>server := s',
                requests := requests w @ [\<lparr>jql = q, startAt = sa, maxResults = n\<rparr>]\<rparr>)
         \<and> get_tasks_loop srv q n sa got w =
             get_tasks_loop srv q n (sa + n) (got @ xs)
               (w\<lparr>server := s',
                  requests := requests w @ [\<lparr>jql = q, startAt = sa, maxResults = n\<rparr>]\<rparr>)
         \<and> requests (world_after (get_tasks_iteration srv q n (sa + n) (got @ xs)
               (w\<lparr>server := s',
                  requests := requests w @ [\<lparr>jql = q, startAt = sa, maxResults = n\<rparr>]\<rparr>)))
             = requests w @ [\<lparr>jql = q, startAt = sa, maxResults = n\<rparr>,
                             \<lparr>jql = q, startAt = sa + n, maxResults = n\<rparr>]
         \<and> (\<forall>r2 s2. srv s' \<lparr>jql = q, startAt = sa + n, maxResults = n\<rparr> = (r2, s2)
                 \<and> page_of r2 = Some [] \<and> 0 < n \<longrightarrow>
               get_tasks_loop srv q n sa got w =
                 Some (Inr (got @ xs),
                       w\<lparr>server := s2,
                         requests := requests w @
                           [\<lparr>jql = q, startAt = sa, maxResults = n\<rparr>,
                            \<lparr>jql = q, startAt = sa + n, maxResults = n\<rparr>]\<rparr>))
         \<and> (\<forall>sa0 got0 w0 ts wend.
               get_tasks_loop srv q n sa0 got0 w0 = Some (Inr ts, wend) \<longrightarrow>
               (\<exists>sa' s r'. srv s \<lparr>jql = q, startAt = sa', maxResults = n\<rparr>
                                = (r', server wend)
                  \<and> ((\<exists>err. r' = Failure err)
                     \<or> (\<exists>ys. page_of r' = Some ys \<and> int (length ys) < n))))"
proof -
  let ?w1 = "w\<lparr>server := s',
                requests := requests w @ [\<lparr>jql = q, startAt = sa, maxResults = n\<rparr>]\<rparr>"
  have full: "\<not> int (length xs) < n" using assms(3) by simp
  have it: "get_tasks_iteration srv q n sa got w = Next (sa + n) (got @ xs) ?w1"
    using get_tasks_iteration_page [where srv = srv and w = w, OF assms(1,2), of got] full
    by (simp add: Let_def)
  have lp: "get_tasks_loop srv q n sa got w = get_tasks_loop srv q n (sa + n) (got @ xs) ?w1"
    by (rule get_tasks_loop_full_page [where srv = srv and w = w, OF assms(1,2) full])
  have rq: "requests (world_after (get_tasks_iteration srv q n (sa + n) (got @ xs) ?w1))
             = requests w @ [\<lparr>jql = q, startAt = sa, maxResults = n\<rparr>,
                             \<lparr>jql = q, startAt = sa + n, maxResults = n\<rparr>]"
    by (simp add: get_tasks_iteration_requests)
  have empty: "get_tasks_loop srv q n sa got w =
                 Some (Inr (got @ xs),
                       w\<lparr>server := s2,
                         requests := requests w @
                           [\<lparr>jql = q, startAt = sa, maxResults = n\<rparr>,
                            \<lparr>jql = q, startAt = sa + n, maxResults = n\<rparr>]\<rparr>)"
    if "srv s' \<lparr>jql = q, startAt = sa + n, maxResults = n\<rparr> = (r2, s2)"
       "page_of r2 = Some []" "0 < n" for r2 s2
  proof -
    have "get_tasks_loop srv q n (sa + n) (got @ xs) ?w1 =
            Some (Inr ((got @ xs) @ []),
                  ?w1\<lparr>server := s2,
                      requests := requests ?w1 @ [\<lparr>jql = q, startAt = sa + n, maxResults = n\<rparr>]\<rparr>)"
      by (rule get_tasks_loop_short_page [where r = r2]) (simp_all add: that)
    with lp show ?thesis by simp
  qed
  have ends: "\<exists>sa' s r'. srv s \<lparr>jql = q, startAt = sa', maxResults = n\<rparr>
                                = (r', server wend)
                  \<and> ((\<exists>err. r' = Failure err)
                     \<or> (\<exists>ys. page_of r' = Some ys \<and> int (length ys) < n))"
    if "get_tasks_loop srv q n sa0 got0 w0 = Some (Inr ts, wend)" for sa0 got0 w0 ts wend
  proof -
    from get_tasks_loop_result [OF that] obtain sa' got' w' where
      "get_tasks_iteration srv q n sa' got' w' = Done ts wend" by auto
    from get_tasks_iteration_Done [OF this] obtain r' where
      "srv (server w') \<lparr>jql = q, startAt = sa', maxResults = n\<rparr> = (r', server wend)"
      "(\<exists>err. r' = Failure err) \<or> (\<exists>ys. page_of r' = Some ys \<and> int (length ys) < n)"
      by blast
    then show ?thesis by blast
  qed
  from it lp rq empty ends show ?thesis by blast
qed

theorem get_tasks_full_page_continues_witness:
  "get_tasks_iteration (stub_jira [page_body (replicate 50 (PStr ''a'')), page_body []])
       ''project = X'' 50 0 [] initial_world =
     Next 50 (replicate 50 (PStr ''a''))
       (initial_world\<lparr>server := 1,
          requests := [\<lparr>jql = ''project = X'', startAt = 0, maxResults = 50\<rparr>]\<rparr>)
   \<and> get_tasks_loop (stub_jira [page_body (replicate 50 (PStr ''a'')), page_body []])
       ''project = X'' 50 0 [] initial_world =
     Some (Inr (replicate 50 (PStr ''a'')),
           initial_world\<lparr>server := 2,
             requests := [\<lparr>jql = ''project = X'', startAt = 0, maxResults = 50\<rparr>,
                          \<lparr>jql = ''project = X'', startAt = 50, maxResults = 50\<rparr>]\<rparr>)
   \<and> (\<exists>sa' s r'. stub_jira [page_body (replicate 50 (PStr ''a'')), page_body []] s
                      \<lparr>jql = ''project = X'', startAt = sa', maxResults = 50\<rparr> = (r', 2)
         \<and> ((\<exists>err. r' = Failure err) \<or> (\<exists>ys. page_of r' = Some ys \<and> int (length ys) < 50)))"
proof -
  let ?srv = "stub_jira [page_body (replicate 50 (PStr ''a'')), page_body []]"
  have a: "?srv (server initial_world) \<lparr>jql = ''project = X'', startAt = 0, maxResults = 50\<rparr>
             = (page_body (replicate 50 (PStr ''a'')), 1)"
    by (simp add: stub_jira_def initial_world_def)
  have l: "int (length (replicate 50 (PStr ''a''))) = 50" by simp
  have b: "?srv 1 \<lparr>jql = ''project = X'', startAt = 0 + 50, maxResults = 50\<rparr> = (page_body [], 2)"
    by (simp add: stub_jira_def)
  note T = get_tasks_full_page_continues [where srv = ?srv and w = initial_world and got = "[]",
             OF a page_of_page_body l]
  have 1: "get_tasks_iteration ?srv ''project = X'' 50 0 [] initial_world =
     Next 50 (replicate 50 (PStr ''a''))
       (initial_world\<lparr>server := 1,
          requests := [\<lparr>jql = ''project = X'', startAt = 0, maxResults = 50\<rparr>]\<rparr>)"
    using T [THEN conjunct1] by (simp add: initial_world_def)
  have 2: "get_tasks_loop ?srv ''project = X'' 50 0 [] initial_world =
     Some (Inr (replicate 50 (PStr ''a'')),
           initial_world\<lparr>server := 2,
             requests := [\<lparr>jql = ''project = X'', startAt = 0, maxResults = 50\<rparr>,
                          \<lparr>jql = ''project = X'', startAt = 50, maxResults = 50\<rparr>]\<rparr>)"
    using T [THEN conjunct2, THEN conjunct2, THEN conjunct2, THEN conjunct1, rule_format,
             of "page_body []" 2] b
    by (simp add: initial_world_def page_of_page_body)
  have 3: "\<exists>sa' s r'. ?srv s \<lparr>jql = ''project = X'', startAt = sa', maxResults = 50\<rparr> = (r', 2)
         \<and> ((\<exists>err. r' = Failure err) \<or> (\<exists>ys. page_of r' = Some ys \<and> int (length ys) < 50))"
    using T [THEN conjunct2, THEN conjunct2, THEN conjunct2, THEN conjunct2, rule_format, OF 2]
    by simp
  from 1 2 3 show ?thesis by blast
qed

section \<open>Properties of the orchestrator\<close>

lemma comprehension_Inr_iff:
  "comprehension f xs = Inr ys \<longleftrightarrow> list_all2 (\<lambda>x y. f x = Inr y) xs ys"
proof (induction xs arbitrary: ys)
  case Nil
  then show ?case by auto
next
  case (Cons x xs)
  show ?case
  proof (cases "f x")
    case (Inl e)
    then show ?thesis by (auto simp: and_then_def list_all2_Cons1)
  next
    case (Inr y)
    show ?thesis
    proof (cases "comprehension f xs")
      case (Inl e)
      with Inr Cons.IH show ?thesis
        by (auto simp: and_then_def list_all2_Cons1)
    next
      case Inr2: (Inr zs)
      with Inr Cons.IH show ?thesis
        by (auto simp: and_then_def list_all2_Cons1)
    qed
  qed
qed

lemma comprehension_Inl_iff:
  "(\<exists>e. comprehension f xs = Inl e) \<longleftrightarrow> (\<exists>x\<in>set xs. isl (f x))"
proof (induction xs)
  case Nil
  then show ?case by simp
next
  case (Cons x xs)
  then show ?case
    by (cases "f x"; cases "comprehension f xs") (auto simp: and_then_def)
qed

lemma comprehension_InlD:
  "comprehension f xs = Inl e \<Longrightarrow> \<exists>x\<in>set xs. f x = Inl e"
proof (induction xs arbitrary: e)
  case Nil
  then show ?case by simp
next
  case (Cons x xs)
  then show ?case
    by (cases "f x"; cases "comprehension f xs") (auto simp: and_then_def)
qed

lemma get_tasks_files:
  "get_tasks srv q n w = Some (res, w') \<Longrightarrow> files w' = files w"
  unfolding get_tasks_def by (rule get_tasks_loop_files)

text \<open>
  C8, as amended. When \<^const>\<open>get_tasks\<close> returns the empty list, \<^const>\<open>export_tasks\<close> prints that
  no tasks were found and ends: the result does not depend on the exporter, which is not
  called, and the files are those from before the run. When it returns a list that is not
  empty and \<^const>\<open>format_task\<close> accepts every record, the rows (one for each record, in
  order) go to the exporter in one call. When \<^const>\<open>format_task\<close> raises on a record, the run
  ends with an exception, the exporter is not called and the files are those from before; an
  exception that ends the run is one that \<^const>\<open>format_task\<close> raised on a record.
\<close>

theorem export_tasks_sequence:
  assumes "get_tasks srv q 50 w = Some (Inr tasks, w')"
  shows "(tasks = [] \<longrightarrow>
            export_tasks srv exporter q w =
              Some (Inr (), w'\<lparr>console := console w' @ [''No tasks found for the given query.'']\<rparr>)
            \<and> files (w'\<lparr>console := console w' @ [''No tasks found for the given query.'']\<rparr>)
                = files w)
         \<and> (tasks \<noteq> [] \<longrightarrow>
              (\<forall>rows. list_all2 (\<lambda>task row. format_task task = Inr row) tasks rows \<longrightarrow>
                 export_tasks srv exporter q w = Some (Inr (), exporter rows w')))
         \<and> (tasks \<noteq> [] \<and> (\<exists>task\<in>set tasks. isl (format_task task)) \<longrightarrow>
              (\<exists>e. export_tasks srv exporter q w = Some (Inl e, w')) \<and> files w' = files w)
         \<and> (\<forall>e w''. export_tasks srv exporter q w = Some (Inl e, w'') \<longrightarrow>
               w'' = w' \<and> (\<exists>task\<in>set tasks. format_task task = Inl e))"
proof -
  have f: "files w' = files w" by (rule get_tasks_files [OF assms])
  have a: "export_tasks srv exporter q w =
              Some (Inr (), w'\<lparr>console := console w' @ [''No tasks found for the given query.'']\<rparr>)"
    if "tasks = []"
    using assms that by (simp add: export_tasks_def)
  have b: "export_tasks srv exporter q w = Some (Inr (), exporter rows w')"
    if "tasks \<noteq> []" "list_all2 (\<lambda>task row. format_task task = Inr row) tasks rows" for rows
  proof -
    from that(2) have "comprehension format_task tasks = Inr rows"
      by (simp add: comprehension_Inr_iff)
    with assms that(1) show ?thesis by (simp add: export_tasks_def)
  qed
  have c: "\<exists>e. export_tasks srv exporter q w = Some (Inl e, w')"
    if "tasks \<noteq> []" "\<exists>task\<in>set tasks. isl (format_task task)"
  proof -
    from that(2) obtain e where "comprehension format_task tasks = Inl e"
      using comprehension_Inl_iff [of format_task tasks] by blast
    with assms that(1) show ?thesis by (simp add: export_tasks_def)
  qed
  have d: "w'' = w' \<and> (\<exists>task\<in>set tasks. format_task task = Inl e)"
    if "export_tasks srv exporter q w = Some (Inl e, w'')" for e w''
  proof -
    from that assms have "comprehension format_task tasks = Inl e \<and> w'' = w'"
      by (cases "comprehension format_task tasks")
         (auto simp: export_tasks_def split: if_splits)
    then show ?thesis by (auto dest: comprehension_InlD)
  qed
  have p1: "tasks = [] \<longrightarrow>
            export_tasks srv exporter q w =
              Some (Inr (), w'\<lparr>console := console w' @ [''No tasks found for the given query.'']\<rparr>)
            \<and> files (w'\<lparr>console := console w' @ [''No tasks found for the given query.'']\<rparr>)
                = files w"
    using f a by simp
  have p2: "tasks \<noteq> [] \<longrightarrow>
              (\<forall>rows. list_all2 (\<lambda>task row. format_task task = Inr row) tasks rows \<longrightarrow>
                 export_tasks srv exporter q w = Some (Inr (), exporter rows w'))"
    using b by simp
  have p3: "tasks \<noteq> [] \<and> (\<exists>task\<in>set tasks. isl (format_task task)) \<longrightarrow>
              (\<exists>e. export_tasks srv exporter q w = Some (Inl e, w')) \<and> files w' = files w"
    using f c by simp
  have p4: "\<forall>e w''. export_tasks srv exporter q w = Some (Inl e, w'') \<longrightarrow>
               w'' = w' \<and> (\<exists>task\<in>set tasks. format_task task = Inl e)"
    using d by simp
  show ?thesis
    by (intro conjI) (rule p1, rule p2, rule p3, rule p4)
qed

lemma stub_single_short_page:
  assumes "length xs < 50"
  shows "get_tasks (stub_jira [page_body xs]) q 50 initial_world =
           Some (Inr xs, initial_world\<lparr>server := 1,
                   requests := [\<lparr>jql = q, startAt = 0, maxResults = 50\<rparr>]\<rparr>)"
proof -
  have "get_tasks_loop (stub_jira [page_body xs]) q 50 0 [] initial_world =
          Some (Inr ([] @ xs),
                initial_world\<lparr>server := 1,
                  requests := requests initial_world @ [\<lparr>jql = q, startAt = 0, maxResults = 50\<rparr>]\<rparr>)"
    by (rule get_tasks_loop_short_page [where r = "page_body xs"])
       (simp_all add: stub_jira_def initial_world_def page_of_page_body assms)
  then show ?thesis by (simp add: get_tasks_def initial_world_def)
qed

lemma format_task_no_fields:
  "format_task (PDict [(''key'', PStr ''K-2'')]) = Inl (KeyError ''fields'')"
  by (simp add: format_task_def py_getitem_def and_then_def)

theorem export_tasks_sequence_witness:
  "export_tasks (stub_jira [page_body []]) (export ''jira_exported_tasks.csv'' CHR '';'')
       ''project = X'' initial_world =
     Some (Inr (), initial_world\<lparr>server := 1,
             requests := [\<lparr>jql = ''project = X'', startAt = 0, maxResults = 50\<rparr>],
             console := [''No tasks found for the given query.'']\<rparr>)
   \<and> (\<exists>row. format_task (PDict [(''key'', PStr ''K-1''), (''fields'', PDict [])]) = Inr row
        \<and> export_tasks (stub_jira [page_body [PDict [(''key'', PStr ''K-1''), (''fields'', PDict [])]]])
            (export ''jira_exported_tasks.csv'' CHR '';'') ''project = X'' initial_world =
          Some (Inr (), export ''jira_exported_tasks.csv'' CHR '';'' [row]
                  (initial_world\<lparr>server := 1,
                     requests := [\<lparr>jql = ''project = X'', startAt = 0, maxResults = 50\<rparr>]\<rparr>)))
   \<and> export_tasks (stub_jira [page_body [PDict [(''key'', PStr ''K-2'')]]])
            (export ''jira_exported_tasks.csv'' CHR '';'') ''project = X'' initial_world =
          Some (Inl (KeyError ''fields''), initial_world\<lparr>server := 1,
                  requests := [\<lparr>jql = ''project = X'', startAt = 0, maxResults = 50\<rparr>]\<rparr>)"
proof -
  let ?ex = "export ''jira_exported_tasks.csv'' CHR '';'' :: (string \<times> pyval) list list \<Rightarrow> nat world \<Rightarrow> nat world"
  let ?w1 = "initial_world\<lparr>server := 1,
               requests := [\<lparr>jql = ''project = X'', startAt = 0, maxResults = 50\<rparr>]\<rparr>"
  let ?t1 = "PDict [(''key'', PStr ''K-1''), (''fields'', PDict [])]"
  let ?t2 = "PDict [(''key'', PStr ''K-2'')]"
  have g0: "get_tasks (stub_jira [page_body []]) ''project = X'' 50 initial_world = Some (Inr [], ?w1)"
    by (rule stub_single_short_page) simp
  have g1: "get_tasks (stub_jira [page_body [?t1]]) ''project = X'' 50 initial_world = Some (Inr [?t1], ?w1)"
    by (rule stub_single_short_page) simp
  have g2: "get_tasks (stub_jira [page_body [?t2]]) ''project = X'' 50 initial_world = Some (Inr [?t2], ?w1)"
    by (rule stub_single_short_page) simp
  obtain row where row: "format_task ?t1 = Inr row"
    using format_task_minimal by (cases "format_task ?t1") simp_all
  have a: "export_tasks (stub_jira [page_body []]) ?ex ''project = X'' initial_world =
     Some (Inr (), ?w1\<lparr>console := console ?w1 @ [''No tasks found for the given query.'']\<rparr>)"
    using export_tasks_sequence [OF g0, of ?ex] by simp
  have b: "export_tasks (stub_jira [page_body [?t1]]) ?ex ''project = X'' initial_world =
          Some (Inr (), ?ex [row] ?w1)"
    using export_tasks_sequence [OF g1, of ?ex, THEN conjunct2, THEN conjunct1] row by simp
  have c: "\<exists>e. export_tasks (stub_jira [page_body [?t2]]) ?ex ''project = X'' initial_world =
          Some (Inl e, ?w1)"
    using export_tasks_sequence [OF g2, of ?ex, THEN conjunct2, THEN conjunct2, THEN conjunct1]
          format_task_no_fields
    by simp
  then obtain e where e: "export_tasks (stub_jira [page_body [?t2]]) ?ex ''project = X'' initial_world =
          Some (Inl e, ?w1)"
    by blast
  from export_tasks_sequence [OF g2, of ?ex, THEN conjunct2, THEN conjunct2, THEN conjunct2,
         rule_format, OF e]
  have "e = KeyError ''fields''" by (simp add: format_task_no_fields)
  with e have c': "export_tasks (stub_jira [page_body [?t2]]) ?ex ''project = X'' initial_world =
          Some (Inl (KeyError ''fields''), ?w1)"
    by simp
  from a have a': "export_tasks (stub_jira [page_body []]) ?ex ''project = X'' initial_world =
     Some (Inr (), initial_world\<lparr>server := 1,
             requests := [\<lparr>jql = ''project = X'', startAt = 0, maxResults = 50\<rparr>],
             console := [''No tasks found for the given query.'']\<rparr>)"
    by (simp add: initial_world_def)
  from a' b c' row show ?thesis by blast
qed

text \<open>
  A run in which \<^const>\<open>get_tasks\<close> returns one record, without \<^verbatim>\<open>fields\<close>: \<^const>\<open>export_tasks\<close> with
  the CSV exporter raises \<^verbatim>\<open>KeyError\<close>, and the file of the exporter does not exist afterwards.
\<close>

theorem export_tasks_flatten_raises:
  "get_tasks (stub_jira [page_body [PDict [(''key'', PStr ''K-2'')]]]) ''project = X'' 50 initial_world =
     Some (Inr [PDict [(''key'', PStr ''K-2'')]],
           initial_world\<lparr>server := 1,
             requests := [\<lparr>jql = ''project = X'', startAt = 0, maxResults = 50\<rparr>]\<rparr>)
   \<and> export_tasks (stub_jira [page_body [PDict [(''key'', PStr ''K-2'')]]])
        (export ''jira_exported_tasks.csv'' CHR '';'') ''project = X'' initial_world =
     Some (Inl (KeyError ''fields''),
           initial_world\<lparr>server := 1,
             requests := [\<lparr>jql = ''project = X'', startAt = 0, maxResults = 50\<rparr>]\<rparr>)
   \<and> files (initial_world\<lparr>server := 1,
             requests := [\<lparr>jql = ''project = X'', startAt = 0, maxResults = 50\<rparr>]\<rparr>)
        ''jira_exported_tasks.csv'' = None"
proof -
  have g: "get_tasks (stub_jira [page_body [PDict [(''key'', PStr ''K-2'')]]]) ''project = X'' 50 initial_world =
     Some (Inr [PDict [(''key'', PStr ''K-2'')]],
           initial_world\<lparr>server := 1,
             requests := [\<lparr>jql = ''project = X'', startAt = 0, maxResults = 50\<rparr>]\<rparr>)"
    by (rule stub_single_short_page) simp
  then show ?thesis
    by (simp add: export_tasks_def format_task_no_fields and_then_def initial_world_def)
qed



section \<open>Reading back what the writer wrote\<close>

lemma and_then_Inr_left [simp]: "and_then (Inr x) f = f x"
  by (simp add: and_then_def)

lemma and_then_Inr_right [simp]: "and_then x Inr = x"
  by (cases x) (simp_all add: and_then_def)


















section \<open>Properties of the exporter\<close>


















end

